theory Spec2Isabelle
  imports Main "HOL-Library.Word" "HOL-Library.Sublist"
begin

unbundle bit_operations_syntax

section \<open>Fingerprint (internal/pkg/fingerprint/fingerprint.go)\<close>

subsection \<open>The library functions the package calls\<close>

text \<open>
  \<^verbatim>\<open>New\<close> hashes with Go's \<^verbatim>\<open>crypto/sha256\<close> and renders the digest with
  \<^verbatim>\<open>fmt.Sprintf("%x", ...)\<close>. Both belong to the Go standard library, so they are
  written here from their specification: SHA-256 as in FIPS 180-4, on 32-bit words.
  A Go \<^verbatim>\<open>[]byte\<close> is a list of 8-bit words; a Go \<^verbatim>\<open>string\<close> is a \<^typ>\<open>string\<close>
  (a list of 8-bit characters).
\<close>

type_synonym byte = "8 word"
type_synonym uint32 = "32 word"

definition rotr :: "nat \<Rightarrow> uint32 \<Rightarrow> uint32" where
  "rotr n x = drop_bit n x OR push_bit (32 - n) x"

definition Ch :: "uint32 \<Rightarrow> uint32 \<Rightarrow> uint32 \<Rightarrow> uint32" where
  "Ch x y z = (x AND y) XOR (NOT x AND z)"

definition Maj :: "uint32 \<Rightarrow> uint32 \<Rightarrow> uint32 \<Rightarrow> uint32" where
  "Maj x y z = (x AND y) XOR (x AND z) XOR (y AND z)"

definition bsig0 :: "uint32 \<Rightarrow> uint32" where
  "bsig0 x = rotr 2 x XOR rotr 13 x XOR rotr 22 x"

definition bsig1 :: "uint32 \<Rightarrow> uint32" where
  "bsig1 x = rotr 6 x XOR rotr 11 x XOR rotr 25 x"

definition ssig0 :: "uint32 \<Rightarrow> uint32" where
  "ssig0 x = rotr 7 x XOR rotr 18 x XOR drop_bit 3 x"

definition ssig1 :: "uint32 \<Rightarrow> uint32" where
  "ssig1 x = rotr 17 x XOR rotr 19 x XOR drop_bit 10 x"

text \<open>
  The round constants: the first 32 bits of the fractional parts of the cube roots of the
  first 64 primes, in decimal.
\<close>

definition K256 :: "uint32 list" where
  "K256 =
    [1116352408, 1899447441, 3049323471, 3921009573, 961987163, 1508970993,
     2453635748, 2870763221, 3624381080, 310598401, 607225278, 1426881987,
     1925078388, 2162078206, 2614888103, 3248222580, 3835390401, 4022224774,
     264347078, 604807628, 770255983, 1249150122, 1555081692, 1996064986,
     2554220882, 2821834349, 2952996808, 3210313671, 3336571891, 3584528711,
     113926993, 338241895, 666307205, 773529912, 1294757372, 1396182291,
     1695183700, 1986661051, 2177026350, 2456956037, 2730485921, 2820302411,
     3259730800, 3345764771, 3516065817, 3600352804, 4094571909, 275423344,
     430227734, 506948616, 659060556, 883997877, 958139571, 1322822218,
     1537002063, 1747873779, 1955562222, 2024104815, 2227730452, 2361852424,
     2428436474, 2756734187, 3204031479, 3329325298]"

type_synonym sha_state =
  "uint32 \<times> uint32 \<times> uint32 \<times> uint32 \<times> uint32 \<times> uint32 \<times> uint32 \<times> uint32"

definition init256 :: sha_state where
  "init256 = (0x6a09e667, 0xbb67ae85, 0x3c6ef372, 0xa54ff53a,
              0x510e527f, 0x9b05688c, 0x1f83d9ab, 0x5be0cd19)"

text \<open>Big-endian packing of four bytes into a word, and unpacking.\<close>

definition be32 :: "byte \<Rightarrow> byte \<Rightarrow> byte \<Rightarrow> byte \<Rightarrow> uint32" where
  "be32 a b c d = push_bit 24 (ucast a) OR push_bit 16 (ucast b) OR push_bit 8 (ucast c) OR ucast d"

definition bytes_of_uint32 :: "uint32 \<Rightarrow> byte list" where
  "bytes_of_uint32 w = [ucast (drop_bit 24 w), ucast (drop_bit 16 w), ucast (drop_bit 8 w), ucast w]"

fun words_of_bytes :: "byte list \<Rightarrow> uint32 list" where
  "words_of_bytes (a # b # c # d # rest) = be32 a b c d # words_of_bytes rest"
| "words_of_bytes _ = []"

text \<open>The message schedule: sixteen words of the block, extended to sixty-four.\<close>

fun extend :: "nat \<Rightarrow> uint32 list \<Rightarrow> uint32 list" where
  "extend 0 ws = ws"
| "extend (Suc n) ws =
     (let t = length ws in
      extend n (ws @ [ssig1 (ws ! (t - 2)) + ws ! (t - 7) + ssig0 (ws ! (t - 15)) + ws ! (t - 16)]))"

definition schedule :: "byte list \<Rightarrow> uint32 list" where
  "schedule blk = extend 48 (words_of_bytes blk)"

fun round256 :: "sha_state \<Rightarrow> uint32 \<times> uint32 \<Rightarrow> sha_state" where
  "round256 (a, b, c, d, e, f, g, h) (k, w) =
     (let t1 = h + bsig1 e + Ch e f g + k + w;
          t2 = bsig0 a + Maj a b c
      in (t1 + t2, a, b, c, d + t1, e, f, g))"

fun add_state :: "sha_state \<Rightarrow> sha_state \<Rightarrow> sha_state" where
  "add_state (a, b, c, d, e, f, g, h) (a', b', c', d', e', f', g', h') =
     (a + a', b + b', c + c', d + d', e + e', f + f', g + g', h + h')"

definition block256 :: "sha_state \<Rightarrow> byte list \<Rightarrow> sha_state" where
  "block256 s blk = add_state s (foldl round256 s (zip K256 (schedule blk)))"

text \<open>Padding: a one bit, zeros up to 56 mod 64, and the bit length as 64 bits big-endian.\<close>

definition len_bytes :: "nat \<Rightarrow> byte list" where
  "len_bytes n =
     (let w = (word_of_nat n :: 64 word)
      in map (\<lambda>i. ucast (drop_bit (8 * (7 - i)) w)) [0..<8])"

definition pad256 :: "byte list \<Rightarrow> byte list" where
  "pad256 msg =
     msg @ [0x80] @ replicate ((119 - length msg mod 64) mod 64) 0 @ len_bytes (8 * length msg)"

function blocks256 :: "sha_state \<Rightarrow> byte list \<Rightarrow> sha_state" where
  "blocks256 s bs = (if length bs < 64 then s else blocks256 (block256 s (take 64 bs)) (drop 64 bs))"
  by pat_completeness auto
termination
  by (relation "measure (\<lambda>(s, bs). length bs)") auto

fun digest_bytes :: "sha_state \<Rightarrow> byte list" where
  "digest_bytes (a, b, c, d, e, f, g, h) =
     concat (map bytes_of_uint32 [a, b, c, d, e, f, g, h])"

definition Sum256 :: "byte list \<Rightarrow> byte list" where
  "Sum256 msg = digest_bytes (blocks256 init256 (pad256 msg))"

definition ldigits :: string where
  "ldigits = ''0123456789abcdef''"

definition hexdigit :: "nat \<Rightarrow> char" where
  "hexdigit n = ldigits ! (n mod 16)"

definition hex_byte :: "byte \<Rightarrow> string" where
  "hex_byte b = [hexdigit (unat b div 16), hexdigit (unat b mod 16)]"

definition Sprintf_x :: "byte list \<Rightarrow> string" where
  "Sprintf_x bs = concat (map hex_byte bs)"

text \<open>\<^verbatim>\<open>%d\<close> of a non-negative integer: its decimal digits.\<close>

function Sprintf_d :: "nat \<Rightarrow> string" where
  "Sprintf_d n =
     (if n < 10 then [''0123456789'' ! n]
      else Sprintf_d (n div 10) @ [''0123456789'' ! (n mod 10)])"
  by pat_completeness auto
termination
  by (relation "measure id") auto

text \<open>
  The hash object \<^verbatim>\<open>sha256.New()\<close> returns: it collects what is written to it.
  Its \<^verbatim>\<open>Write\<close> takes every byte and never reports an error; \<^verbatim>\<open>Sum(b)\<close> appends
  the digest of what was written to \<^verbatim>\<open>b\<close>. \<^verbatim>\<open>sha256.BlockSize\<close> is 64.
\<close>

datatype go_error = errorString string | ValidationError go_error

record digest =
  written :: "byte list"

definition sha256_New :: digest where
  "sha256_New = \<lparr>written = []\<rparr>"

definition digest_Write :: "digest \<Rightarrow> byte list \<Rightarrow> digest \<times> nat \<times> go_error option" where
  "digest_Write h p = (h\<lparr>written := written h @ p\<rparr>, length p, None)"

definition digest_Sum :: "digest \<Rightarrow> byte list \<Rightarrow> byte list" where
  "digest_Sum h b = b @ Sum256 (written h)"

definition BlockSize :: nat where
  "BlockSize = 64"

text \<open>
  An \<^verbatim>\<open>io.Reader\<close> is given by what \<^verbatim>\<open>ioutil.ReadAll\<close> gets from it: the bytes read
  until end of file, and the error that stopped the reading, if any.
\<close>

datatype Reader = Reader "byte list" "go_error option"

fun ReadAll :: "Reader \<Rightarrow> byte list \<times> go_error option" where
  "ReadAll (Reader bs err) = (bs, err)"

text \<open>The conversions \<^verbatim>\<open>string(bytes)\<close> and \<^verbatim>\<open>[]byte(s)\<close>.\<close>

definition string_of_bytes :: "byte list \<Rightarrow> string" where
  "string_of_bytes bs = map (\<lambda>b. char_of (unat b)) bs"

definition bytes_of_string :: "string \<Rightarrow> byte list" where
  "bytes_of_string s = map of_char s"

subsection \<open>The package\<close>

text \<open>
  \<^verbatim>\<open>ValidationError\<close> wraps an error; its \<^verbatim>\<open>Error()\<close> prints the wrapped error with
  \<^verbatim>\<open>%v\<close>, which is that error's own message.
\<close>

fun Error :: "go_error \<Rightarrow> string" where
  "Error (errorString s) = s"
| "Error (ValidationError err) = Error err"

definition validationError :: "go_error \<Rightarrow> go_error" where
  "validationError err = ValidationError err"

text \<open>
  The writer of a fingerprint is only stored by the functions below, so its type is left
  open; \<open>None\<close> is the nil interface value of the zero fingerprint.
\<close>

record 'w Fingerprint =
  out :: "'w option"
  hash :: string

definition zerofp :: "'w Fingerprint" where
  "zerofp = \<lparr>out = None, hash = []\<rparr>"

definition Hash :: "'w Fingerprint \<Rightarrow> string" where
  "Hash f = hash f"

text \<open>A Go function returning \<^verbatim>\<open>(Fingerprint, error)\<close> returns a pair; \<open>None\<close> is nil.\<close>

definition New :: "'w option \<Rightarrow> byte list \<Rightarrow> 'w Fingerprint \<times> go_error option" where
  "New ou val =
     (case digest_Write sha256_New val of
        (h, n, Some err) \<Rightarrow> (zerofp, Some err)
      | (h, n, None) \<Rightarrow>
          if n \<noteq> length val then
            (zerofp, Some (errorString (''unexpected number of bytes written: ''
               @ Sprintf_d n @ ''/'' @ Sprintf_d (length val))))
          else
            let hstr = Sprintf_x (digest_Sum h [])
            in if length hstr < BlockSize then
                 (zerofp, Some (errorString (''unexpected hash length, expected ''
                    @ Sprintf_d BlockSize @ '', got '' @ Sprintf_d (length hstr))))
               else (\<lparr>out = ou, hash = hstr\<rparr>, None))"

definition validate :: "'w Fingerprint \<Rightarrow> Reader \<Rightarrow> go_error option" where
  "validate newfp prev =
     (case ReadAll prev of
        (prevHashBytes, Some err) \<Rightarrow> Some err
      | (prevHashBytes, None) \<Rightarrow>
          let prevHash = string_of_bytes prevHashBytes
          in if length prevHash > 1 \<and> prevHash \<noteq> hash newfp then
               Some (validationError (errorString (''hash mismatch detected, expected ''
                  @ prevHash @ '', got '' @ hash newfp)))
             else None)"

definition NewWithValidation ::
  "byte list \<Rightarrow> 'w option \<Rightarrow> Reader \<Rightarrow> 'w Fingerprint \<times> go_error option" where
  "NewWithValidation val ou prev =
     (case New ou val of
        (newfp, Some err) \<Rightarrow> (zerofp, Some err)
      | (newfp, None) \<Rightarrow>
          (case validate newfp prev of
             Some err \<Rightarrow> (zerofp, Some err)
           | None \<Rightarrow> (newfp, None)))"

section \<open>Watchers (package watch)\<close>

text \<open>
  A channel value is a reference; \<open>chan\<close> is its identity. A call that sends on a
  channel returns, or stays blocked, or panics, in the state it has reached.
\<close>

type_synonym chan = nat

datatype 'a outcome = Returns 'a | Blocks 'a | Panics 'a

text \<open>
  The struct \<^verbatim>\<open>Watch\<close>. The closures \<^verbatim>\<open>StartFn\<close> and \<^verbatim>\<open>StopFn\<close> act on the rest of
  the program's state, of type \<open>'e\<close>. \<^verbatim>\<open>StopKey\<close> is a channel made with a buffer of one
  element and owned by the watcher: the field holds the values waiting in its buffer.
  \<^verbatim>\<open>startOnce\<close> is a \<^verbatim>\<open>sync.Once\<close>: the field is true when its \<^verbatim>\<open>Do\<close> has run.
\<close>

record 'e Watch =
  Running :: bool
  StartFn :: "'e \<Rightarrow> 'e"
  StopFn :: "'e \<Rightarrow> 'e"
  StopKey :: "bool list"
  startOnce :: bool
  listeners :: "chan list"

definition StopKey_cap :: nat where
  "StopKey_cap = 1"

definition NewWatch :: "'e Watch" where
  "NewWatch =
     \<lparr>Running = False, StartFn = (\<lambda>e. e), StopFn = (\<lambda>e. e), StopKey = [],
      startOnce = False, listeners = []\<rparr>"

definition Watch_StartUnsafe :: "('e, 'a) Watch_scheme \<Rightarrow> ('e, 'a) Watch_scheme" where
  "Watch_StartUnsafe w = w\<lparr>Running := True\<rparr>"

text \<open>
  \<^verbatim>\<open>Start(watcher)\<close> is \<^verbatim>\<open>watcher.once().Do(watcher.StartUnsafe)\<close>. The interface value
  carries the implementation of \<^verbatim>\<open>StartUnsafe\<close>, here the argument \<open>impl\<close>;
  \<^verbatim>\<open>once()\<close> is the \<^verbatim>\<open>startOnce\<close> of the embedded \<^verbatim>\<open>Watch\<close>. \<^verbatim>\<open>Once.Do(f)\<close> calls \<open>f\<close>
  if it has not run before and then marks itself done; it holds a mutex while doing so,
  so calls from several goroutines take effect one after the other.
\<close>

definition Start ::
  "(('e, 'a) Watch_scheme \<Rightarrow> ('e, 'a) Watch_scheme) \<Rightarrow> ('e, 'a) Watch_scheme \<Rightarrow> ('e, 'a) Watch_scheme" where
  "Start impl w = (if startOnce w then w else (impl w)\<lparr>startOnce := True\<rparr>)"

text \<open>
  \<^verbatim>\<open>Stop\<close>. The send on \<^verbatim>\<open>StopKey\<close> completes when the buffer has room and waits
  otherwise; nothing in the package closes \<^verbatim>\<open>StopKey\<close>.
\<close>

definition Stop :: "('e, 'a) Watch_scheme \<times> 'e \<Rightarrow> (('e, 'a) Watch_scheme \<times> 'e) outcome" where
  "Stop we =
     (case we of (w, e) \<Rightarrow>
        if \<not> Running w then Returns (w, e)
        else
          let w1 = w\<lparr>Running := False\<rparr>;
              e1 = StopFn w1 e
          in if length (StopKey w1) < StopKey_cap
             then Returns (w1\<lparr>StopKey := StopKey w1 @ [True]\<rparr>, e1)
             else Blocks (w1, e1))"

definition Subscribe :: "('e, 'a) Watch_scheme \<Rightarrow> chan \<Rightarrow> ('e, 'a) Watch_scheme" where
  "Subscribe w handler = w\<lparr>listeners := listeners w @ [handler]\<rparr>"

text \<open>
  The channels the listeners refer to are made and used outside the package. For a send
  on one of them two things matter: whether the channel is closed, and how many further
  values it takes (the free slots of its buffer and the receives its readers make). A nil
  channel is not closed and takes no value.
\<close>

record chan_state =
  closed :: bool
  room :: nat

type_synonym chans = "chan \<Rightarrow> chan_state"

text \<open>
  \<^verbatim>\<open>Emit\<close> sends the message to each listener in turn. A send on a closed channel
  panics; a send on a channel that takes a value completes and uses up one place; a send
  on a channel that takes none waits. The result is the list of completed sends, oldest
  first.
\<close>

fun Emit_loop ::
  "chans \<Rightarrow> chan list \<Rightarrow> 'm \<Rightarrow> (chan \<times> 'm) list \<Rightarrow> (chan \<times> 'm) list outcome" where
  "Emit_loop cs [] message sent = Returns sent"
| "Emit_loop cs (handler # rest) message sent =
     (if closed (cs handler) then Panics sent
      else if room (cs handler) = 0 then Blocks sent
      else Emit_loop (cs(handler := (cs handler)\<lparr>room := room (cs handler) - 1\<rparr>)) rest message
             (sent @ [(handler, message)]))"

definition Emit ::
  "chans \<Rightarrow> ('e, 'a) Watch_scheme \<Rightarrow> 'm \<Rightarrow> (chan \<times> 'm) list \<Rightarrow> (chan \<times> 'm) list outcome" where
  "Emit cs w message sent = Emit_loop cs (listeners w) message sent"

subsection \<open>TimerWatch\<close>

text \<open>
  \<^verbatim>\<open>time.Duration\<close> is a signed 64-bit count of nanoseconds. \<^verbatim>\<open>TimerWatch\<close> embeds
  \<^verbatim>\<open>TimerWatchConf\<close> and \<^verbatim>\<open>Watch\<close>; the fields and methods of \<^verbatim>\<open>Watch\<close> are promoted,
  which the record extension gives. \<open>timerLoops\<close> counts the goroutines started by
  \<^verbatim>\<open>go w.timerLoop()\<close>.
\<close>

type_synonym Duration = "64 word"

definition Second :: Duration where
  "Second = 1000000000"

record TimerWatchConf =
  Interval :: Duration

record 'e TimerWatch = "'e Watch" +
  TimerWatchConf :: TimerWatchConf
  timerLoops :: nat

definition NewTimerWatch :: "TimerWatchConf \<Rightarrow> 'e TimerWatch" where
  "NewTimerWatch conf =
     (let w = Watch.extend NewWatch (TimerWatch.fields conf 0)
      in if Interval (TimerWatchConf w) <s 1
         then w\<lparr>TimerWatchConf := (TimerWatchConf w)\<lparr>Interval := Second\<rparr>\<rparr>
         else w)"

definition TimerWatch_StartUnsafe :: "('e, 'a) TimerWatch_scheme \<Rightarrow> ('e, 'a) TimerWatch_scheme" where
  "TimerWatch_StartUnsafe w = (Watch_StartUnsafe w)\<lparr>timerLoops := timerLoops w + 1\<rparr>"






text \<open>A watcher as its constructor leaves it.\<close>

definition created :: "('e, 'a) Watch_scheme \<Rightarrow> bool" where
  "created w = (\<not> startOnce w \<and> \<not> Running w \<and> StopKey w = [])"

section \<open>Stream registry (package global)\<close>

text \<open>
  A registered stream is known through the interface \<^verbatim>\<open>Stream\<close> only; \<open>Stream\<close> is its
  identity. The context and the wait group are handed on unchanged and left out.
\<close>

type_synonym Stream = nat

record StreamRegisterer =
  streams :: "Stream list"

definition newRegisterer :: StreamRegisterer where
  "newRegisterer = \<lparr>streams = []\<rparr>"

definition Register :: "StreamRegisterer \<Rightarrow> Stream list \<Rightarrow> StreamRegisterer \<times> go_error option" where
  "Register r w = (r\<lparr>streams := streams r @ w\<rparr>, None)"

text \<open>
  The channel \<^verbatim>\<open>ch\<close> that \<^verbatim>\<open>Start\<close> hands to every stream, with its readers: the values
  sent and not yet received, the streams reading it, and the receipts so far, oldest
  first. A value sent on a Go channel is received by one receiver.
\<close>

record 'm channel =
  queue :: "'m list"
  readers :: "Stream list"
  received :: "(Stream \<times> 'm) list"

text \<open>
  Modelled from the spec: the run loop of a sink, which is not part of the sources (only
  the interface \<^verbatim>\<open>Stream\<close> is). By section 4.3 a sink started with \<^verbatim>\<open>Start\<close> consumes from
  the shared channel until it is closed or the cancellation fires.
\<close>

definition Stream_Start :: "Stream \<Rightarrow> 'm channel \<Rightarrow> 'm channel" where
  "Stream_Start s ch = ch\<lparr>readers := readers ch @ [s]\<rparr>"

definition Registerer_Start :: "StreamRegisterer \<Rightarrow> 'm channel \<Rightarrow> 'm channel \<times> go_error option" where
  "Registerer_Start r ch = (foldl (\<lambda>c s. Stream_Start s c) ch (streams r), None)"

text \<open>
  What then happens on the channel: the producer sends a sample, or a reading sink
  receives the oldest waiting one (and waits when there is none).
\<close>

datatype 'm event = Push 'm | Receive Stream

fun channel_step :: "'m channel \<Rightarrow> 'm event \<Rightarrow> 'm channel" where
  "channel_step ch (Push m) = ch\<lparr>queue := queue ch @ [m]\<rparr>"
| "channel_step ch (Receive s) =
     (case queue ch of
        [] \<Rightarrow> ch
      | m # rest \<Rightarrow>
          if s \<in> set (readers ch) then ch\<lparr>queue := rest, received := received ch @ [(s, m)]\<rparr>
          else ch)"

definition channel_run :: "'m channel \<Rightarrow> 'm event list \<Rightarrow> 'm channel" where
  "channel_run ch evs = foldl channel_step ch evs"

fun pushed :: "'m event list \<Rightarrow> 'm list" where
  "pushed [] = []"
| "pushed (Push m # evs) = m # pushed evs"
| "pushed (Receive s # evs) = pushed evs"

definition observed :: "Stream \<Rightarrow> 'm channel \<Rightarrow> 'm list" where
  "observed s ch = map snd (filter (\<lambda>r. fst r = s) (received ch))"

definition new_channel :: "'m channel" where
  "new_channel = \<lparr>queue = [], readers = [], received = []\<rparr>"

section \<open>Algorand node discovery (package algorand)\<close>

text \<open>A call either returns a value or panics with a message.\<close>

datatype 'a go_result = Result 'a | Panic string

datatype Algorand = Algorand

definition NewAlgorand :: "Algorand \<times> go_error option" where
  "NewAlgorand = (Algorand, None)"

definition IsConfigured :: "Algorand \<Rightarrow> bool go_result" where
  "IsConfigured a = Panic ''implement me!''"

definition ResetConfig :: "Algorand \<Rightarrow> (go_error option) go_result" where
  "ResetConfig a = Panic ''implement me!''"

section \<open>Properties of the fingerprint\<close>

declare blocks256.simps [simp del]
declare Sprintf_d.simps [simp del]

lemma length_digest_bytes: "length (digest_bytes s) = 32"
  by (cases s rule: digest_bytes.cases) (simp add: bytes_of_uint32_def)

lemma length_Sum256: "length (Sum256 msg) = 32"
  by (simp add: Sum256_def length_digest_bytes)

lemma length_hex_byte: "length (hex_byte b) = 2"
  by (simp add: hex_byte_def)

lemma length_Sprintf_x: "length (Sprintf_x bs) = 2 * length bs"
  by (induction bs) (simp_all add: Sprintf_x_def length_hex_byte)

lemma length_ldigits: "length ldigits = 16"
  by (simp add: ldigits_def)

lemma hexdigit_lower: "hexdigit n \<in> set ldigits"
proof -
  have "n mod 16 < length ldigits" by (simp add: length_ldigits)
  then show ?thesis unfolding hexdigit_def by (rule nth_mem)
qed

lemma set_hex_byte: "set (hex_byte b) \<subseteq> set ldigits"
  unfolding hex_byte_def using hexdigit_lower by simp

lemma set_Sprintf_x: "set (Sprintf_x bs) \<subseteq> set ldigits"
  unfolding Sprintf_x_def using set_hex_byte by auto

lemma New_eq: "New ou val = (\<lparr>out = ou, hash = Sprintf_x (Sum256 val)\<rparr>, None)"
  by (simp add: New_def digest_Write_def sha256_New_def digest_Sum_def BlockSize_def
      length_Sprintf_x length_Sum256)

lemma length_hash_New: "length (hash (fst (New ou val))) = 64"
  by (simp add: New_eq length_Sprintf_x length_Sum256)

lemma set_Sprintf_x_lower: "set (Sprintf_x bs) \<subseteq> set ''0123456789abcdef''"
  using set_Sprintf_x [of bs] unfolding ldigits_def .

lemma unat_of_char: "unat (of_char c :: byte) = of_char c"
proof -
  have "(of_char c :: byte) = of_nat (of_char c)"
    by (simp add: of_nat_of_char)
  moreover have "(of_char c :: nat) < 256"
    by (rule nat_of_char_less_256)
  ultimately show ?thesis
    by (simp add: unat_of_nat)
qed

lemma string_of_bytes_of_string: "string_of_bytes (bytes_of_string s) = s"
  by (induction s) (simp_all add: string_of_bytes_def bytes_of_string_def unat_of_char)

lemma length_string_of_bytes: "length (string_of_bytes p) = length p"
  by (simp add: string_of_bytes_def)

lemma validate_eq:
  "validate fp (Reader p None) =
     (if 1 < length p \<and> string_of_bytes p \<noteq> hash fp
      then Some (ValidationError (errorString
             (''hash mismatch detected, expected '' @ string_of_bytes p @ '', got '' @ hash fp)))
      else None)"
  by (simp add: validate_def validationError_def Let_def length_string_of_bytes)

text \<open>
  The model of SHA-256 on the standard's test vector for the empty message.
\<close>

lemma Sum256_empty:
  "Sprintf_x (Sum256 []) = ''e3b0c44298fc1c149afbf4c8996fb92427ae41e4649b934ca495991b7852b855''"
  by code_simp

text \<open>
  Claim C9. For every byte slice and every writer, \<^verbatim>\<open>New\<close> returns no error and a
  fingerprint whose \<^verbatim>\<open>Hash()\<close> is the hexadecimal rendering of the SHA-256 digest of the
  bytes: 64 characters, all of them lowercase hexadecimal digits. Since the result is always
  this pair, neither error branch of \<^verbatim>\<open>New\<close> is ever taken; and the digest depends on the
  bytes only, not on the writer.
\<close>

theorem New_sha256_hex:
  "New ou val = (\<lparr>out = ou, hash = Sprintf_x (Sum256 val)\<rparr>, None) \<and>
   snd (New ou val) = None \<and>
   Hash (fst (New ou val)) = Sprintf_x (Sum256 val) \<and>
   length (Hash (fst (New ou val))) = 64 \<and>
   set (Hash (fst (New ou val))) \<subseteq> set ''0123456789abcdef'' \<and>
   Hash (fst (New ou' val)) = Hash (fst (New ou val))"
  using set_Sprintf_x_lower [of "Sum256 val"]
  by (simp add: New_eq Hash_def length_Sprintf_x length_Sum256)

theorem New_sha256_hex_witness:
  "New (None :: unit option) [] =
     (\<lparr>out = None,
       hash = ''e3b0c44298fc1c149afbf4c8996fb92427ae41e4649b934ca495991b7852b855''\<rparr>, None) \<and>
   length (Hash (fst (New (None :: unit option) []))) = 64"
proof -
  from New_sha256_hex [of "None :: unit option" "[]" None]
  have "New (None :: unit option) [] = (\<lparr>out = None, hash = Sprintf_x (Sum256 [])\<rparr>, None)"
    and "length (Hash (fst (New (None :: unit option) []))) = 64"
    by blast+
  then show ?thesis
    unfolding Sum256_empty by blast
qed

text \<open>
  Claim C10. A previous digest of length 0 or 1 counts as absent: for every fingerprint
  and every previous content of at most one byte, read without error, \<^verbatim>\<open>validate\<close> returns
  no error, also when that byte differs from the fingerprint's digest.
\<close>

theorem validate_short_previous:
  "length p \<le> 1 \<Longrightarrow> validate fp (Reader p None) = None"
  by (simp add: validate_eq)

theorem validate_short_previous_witness:
  "length [0x78 :: byte] \<le> 1 \<and> [0x78 :: byte] \<noteq> [] \<and>
   string_of_bytes [0x78] \<noteq>
     hash \<lparr>out = None :: unit option,
           hash = ''e3b0c44298fc1c149afbf4c8996fb92427ae41e4649b934ca495991b7852b855''\<rparr> \<and>
   validate \<lparr>out = None :: unit option,
             hash = ''e3b0c44298fc1c149afbf4c8996fb92427ae41e4649b934ca495991b7852b855''\<rparr>
     (Reader [0x78] None) = None"
proof -
  have h: "length [0x78 :: byte] \<le> 1" by simp
  show ?thesis
    using h validate_short_previous [OF h, of "\<lparr>out = None :: unit option,
           hash = ''e3b0c44298fc1c149afbf4c8996fb92427ae41e4649b934ca495991b7852b855''\<rparr>"]
    by (simp add: string_of_bytes_def)
qed

text \<open>
  Claim C2. As stated the claim fails: a previous content of one byte is non-empty and
  differs from every digest, and validation succeeds on it (here the byte \<^verbatim>\<open>x\<close> against the
  fingerprint of the empty data).
\<close>

theorem validate_nonempty_previous_counterexample:
  "[0x78 :: byte] \<noteq> [] \<and>
   string_of_bytes [0x78] \<noteq> Hash (fst (New (None :: unit option) [])) \<and>
   validate (fst (New (None :: unit option) [])) (Reader [0x78] None) = None \<and>
   snd (NewWithValidation [] (None :: unit option) (Reader [0x78] None)) = None"
proof -
  have "length (string_of_bytes [0x78 :: byte]) \<noteq> length (Hash (fst (New (None :: unit option) [])))"
    by (simp add: Hash_def length_hash_New length_string_of_bytes)
  then have "string_of_bytes [0x78] \<noteq> Hash (fst (New (None :: unit option) []))"
    by auto
  then show ?thesis
    by (simp add: validate_eq NewWithValidation_def New_eq)
qed

text \<open>
  Claim C2. Amended. For every fingerprint and every previous content \<open>p\<close>
  read without error, validation fails if and only if \<open>p\<close> is longer than one byte and differs
  from the fingerprint's digest; the error is then a \<^verbatim>\<open>ValidationError\<close> whose message
  carries both digests. Validating against the fingerprint's own digest succeeds, and
  against an empty store succeeds. \<^verbatim>\<open>NewWithValidation\<close> returns the zero fingerprint with
  that error in the first case and the new fingerprint with no error otherwise.
\<close>

theorem validate_fails_iff:
  "(validate fp (Reader p None) \<noteq> None \<longleftrightarrow> 1 < length p \<and> string_of_bytes p \<noteq> Hash fp) \<and>
   (1 < length p \<and> string_of_bytes p \<noteq> Hash fp \<longrightarrow>
      validate fp (Reader p None) =
        Some (ValidationError (errorString
          (''hash mismatch detected, expected '' @ string_of_bytes p @ '', got '' @ Hash fp))) \<and>
      map_option Error (validate fp (Reader p None)) =
        Some (''hash mismatch detected, expected '' @ string_of_bytes p @ '', got '' @ Hash fp)) \<and>
   validate fp (Reader (bytes_of_string (Hash fp)) None) = None \<and>
   validate fp (Reader [] None) = None \<and>
   NewWithValidation val ou (Reader p None) =
     (if 1 < length p \<and> string_of_bytes p \<noteq> Hash (fst (New ou val))
      then (zerofp, Some (ValidationError (errorString
              (''hash mismatch detected, expected '' @ string_of_bytes p @ '', got ''
                 @ Hash (fst (New ou val))))))
      else (fst (New ou val), None))"
  by (simp add: validate_eq Hash_def string_of_bytes_of_string NewWithValidation_def New_eq)

theorem validate_fails_iff_witness:
  "1 < length [0x61 :: byte, 0x62] \<and>
   string_of_bytes [0x61, 0x62] \<noteq>
     Hash \<lparr>out = None :: unit option,
           hash = ''e3b0c44298fc1c149afbf4c8996fb92427ae41e4649b934ca495991b7852b855''\<rparr> \<and>
   map_option Error
     (validate \<lparr>out = None :: unit option,
                hash = ''e3b0c44298fc1c149afbf4c8996fb92427ae41e4649b934ca495991b7852b855''\<rparr>
        (Reader [0x61, 0x62] None)) =
     Some ''hash mismatch detected, expected ab, got e3b0c44298fc1c149afbf4c8996fb92427ae41e4649b934ca495991b7852b855''"
proof -
  have a: "1 < length [0x61 :: byte, 0x62]" by simp
  have b: "string_of_bytes [0x61, 0x62] \<noteq>
     Hash \<lparr>out = None :: unit option,
           hash = ''e3b0c44298fc1c149afbf4c8996fb92427ae41e4649b934ca495991b7852b855''\<rparr>"
    by (simp add: string_of_bytes_def Hash_def)
  have c: "string_of_bytes [0x61 :: byte, 0x62] = ''ab''"
    by code_simp
  from a b validate_fails_iff [of "\<lparr>out = None :: unit option,
           hash = ''e3b0c44298fc1c149afbf4c8996fb92427ae41e4649b934ca495991b7852b855''\<rparr>"
           "[0x61, 0x62]" "[]" None]
  have "map_option Error
     (validate \<lparr>out = None :: unit option,
                hash = ''e3b0c44298fc1c149afbf4c8996fb92427ae41e4649b934ca495991b7852b855''\<rparr>
        (Reader [0x61, 0x62] None)) =
     Some (''hash mismatch detected, expected '' @ string_of_bytes [0x61 :: byte, 0x62] @ '', got '' @
       Hash \<lparr>out = None :: unit option,
           hash = ''e3b0c44298fc1c149afbf4c8996fb92427ae41e4649b934ca495991b7852b855''\<rparr>)"
    by blast
  with a b show ?thesis
    unfolding c by (simp add: Hash_def)
qed

section \<open>Properties of the watchers\<close>

lemma startOnce_Start: "startOnce (Start impl w)"
  by (simp add: Start_def)

lemma Start_started: "startOnce w \<Longrightarrow> Start impl w = w"
  by (simp add: Start_def)

lemma Start_Start: "Start impl (Start impl w) = Start impl w"
  by (rule Start_started) (rule startOnce_Start)

lemma Start_funpow: "0 < n \<Longrightarrow> (Start impl ^^ n) w = Start impl w"
proof (induction n)
  case 0
  then show ?case by simp
next
  case (Suc n)
  show ?case
  proof (cases "n = 0")
    case True
    then show ?thesis by simp
  next
    case False
    with Suc.IH have "(Start impl ^^ n) w = Start impl w" by simp
    then show ?thesis by (simp add: Start_Start)
  qed
qed

lemma Running_Start_Watch: "\<not> startOnce w \<Longrightarrow> Running (Start Watch_StartUnsafe w)"
  by (simp add: Start_def Watch_StartUnsafe_def)

lemma Start_TimerWatch:
  "\<not> startOnce w \<Longrightarrow>
     Running (Start TimerWatch_StartUnsafe w) \<and>
     timerLoops (Start TimerWatch_StartUnsafe w) = timerLoops w + 1"
  by (simp add: Start_def TimerWatch_StartUnsafe_def Watch_StartUnsafe_def)

lemma created_NewWatch: "created NewWatch"
  by (simp add: created_def NewWatch_def)

lemma created_NewTimerWatch: "created (NewTimerWatch conf)"
  by (simp add: created_def NewTimerWatch_def NewWatch_def Watch.extend_def Let_def)

text \<open>
  Claim C3. For every watcher and every \<open>n \<ge> 1\<close>, \<open>n\<close> calls of \<^verbatim>\<open>Start\<close> on a
  watcher that was never started run the body \<^verbatim>\<open>StartUnsafe\<close> exactly once: the state
  after them is the state after one run of the body, with the gate closed; a call on a
  watcher whose gate is closed changes nothing. For the two implementations of the body,
  \<^verbatim>\<open>Watch\<close> and \<^verbatim>\<open>TimerWatch\<close>, the watcher is then running, and a \<^verbatim>\<open>TimerWatch\<close> has
  started one timer loop. Calls from several goroutines are serialised by the
  \<^verbatim>\<open>sync.Once\<close>, so they are \<open>n\<close> calls in some order.
\<close>

theorem Start_runs_StartUnsafe_once:
  "0 < n \<Longrightarrow>
     (Start impl ^^ n) w = (if startOnce w then w else (impl w)\<lparr>startOnce := True\<rparr>) \<and>
     Start impl ((Start impl ^^ n) w) = (Start impl ^^ n) w \<and>
     (\<not> startOnce w \<longrightarrow> Running ((Start Watch_StartUnsafe ^^ n) w)) \<and>
     (\<not> startOnce tw \<longrightarrow>
        Running ((Start TimerWatch_StartUnsafe ^^ n) tw) \<and>
        timerLoops ((Start TimerWatch_StartUnsafe ^^ n) tw) = timerLoops tw + 1)"
  by (simp add: Start_funpow Start_Start Running_Start_Watch Start_TimerWatch)
     (simp add: Start_def)

theorem Start_runs_StartUnsafe_once_witness:
  "(0::nat) < 3 \<and> \<not> startOnce (NewTimerWatch \<lparr>Interval = 0\<rparr> :: unit TimerWatch) \<and>
   Running ((Start TimerWatch_StartUnsafe ^^ 3) (NewTimerWatch \<lparr>Interval = 0\<rparr> :: unit TimerWatch)) \<and>
   timerLoops ((Start TimerWatch_StartUnsafe ^^ 3) (NewTimerWatch \<lparr>Interval = 0\<rparr> :: unit TimerWatch)) = 1 \<and>
   \<not> startOnce (NewWatch :: unit Watch) \<and>
   Running ((Start Watch_StartUnsafe ^^ 3) (NewWatch :: unit Watch))"
proof -
  have n: "(0::nat) < 3" by simp
  have a: "\<not> startOnce (NewTimerWatch \<lparr>Interval = 0\<rparr> :: unit TimerWatch)"
    by (simp add: created_NewTimerWatch [unfolded created_def])
  have b: "\<not> startOnce (NewWatch :: unit Watch)"
    by (simp add: created_NewWatch [unfolded created_def])
  have c: "timerLoops (NewTimerWatch \<lparr>Interval = 0\<rparr> :: unit TimerWatch) = 0"
    by (simp add: NewTimerWatch_def NewWatch_def Watch.extend_def TimerWatch.fields_def Let_def)
  show ?thesis
    using n a b c
      Start_runs_StartUnsafe_once [OF n, of Watch_StartUnsafe "NewWatch :: unit Watch"
        "NewTimerWatch \<lparr>Interval = 0\<rparr> :: unit TimerWatch"]
    by (simp add: Watch_StartUnsafe_def)
qed

lemma Stop_not_Running: "\<not> Running w \<Longrightarrow> Stop (w, e) = Returns (w, e)"
  by (simp add: Stop_def)

lemma Stop_Running_room:
  "Running w \<Longrightarrow> length (StopKey w) < StopKey_cap \<Longrightarrow>
     Stop (w, e) = Returns (w\<lparr>Running := False, StopKey := StopKey w @ [True]\<rparr>, StopFn w e)"
  by (simp add: Stop_def Let_def)

lemma Stop_Running_full:
  "Running w \<Longrightarrow> StopKey_cap \<le> length (StopKey w) \<Longrightarrow>
     Stop (w, e) = Blocks (w\<lparr>Running := False\<rparr>, StopFn w e)"
  by (simp add: Stop_def Let_def)

lemma Stop_Returns_stopped: "Stop (w, e) = Returns (w', e') \<Longrightarrow> \<not> Running w'"
  by (auto simp: Stop_def Let_def split: if_splits)

lemma Stop_after_Start:
  "created w \<Longrightarrow>
     Stop (Start Watch_StartUnsafe w, e) =
       Returns ((Start Watch_StartUnsafe w)\<lparr>Running := False, StopKey := [True]\<rparr>, StopFn w e)"
  by (simp add: created_def Start_def Watch_StartUnsafe_def Stop_def Let_def StopKey_cap_def)

lemma Stop_after_Start_TimerWatch:
  "created w \<Longrightarrow>
     Stop (Start TimerWatch_StartUnsafe w, e) =
       Returns ((Start TimerWatch_StartUnsafe w)\<lparr>Running := False, StopKey := [True]\<rparr>, StopFn w e)"
  by (simp add: created_def Start_def TimerWatch_StartUnsafe_def Watch_StartUnsafe_def Stop_def
      Let_def StopKey_cap_def)

text \<open>
  Claim C4. As stated the claim fails: a watcher that was started and stopped, and is
  running again through the exported \<^verbatim>\<open>StartUnsafe\<close> while the first stop value still waits
  in \<^verbatim>\<open>StopKey\<close>, is running, and \<^verbatim>\<open>Stop\<close> on it runs the teardown and then stays blocked
  at the send: nothing is sent and the call does not return.
\<close>

theorem Stop_blocks_on_full_StopKey_counterexample:
  "Stop (Start Watch_StartUnsafe ((NewWatch :: nat Watch)\<lparr>StopFn := Suc\<rparr>), 0) =
     Returns ((NewWatch :: nat Watch)\<lparr>StopFn := Suc, StopKey := [True], startOnce := True\<rparr>, 1) \<and>
   Running (Watch_StartUnsafe
     ((NewWatch :: nat Watch)\<lparr>StopFn := Suc, StopKey := [True], startOnce := True\<rparr>)) \<and>
   Stop (Watch_StartUnsafe
     ((NewWatch :: nat Watch)\<lparr>StopFn := Suc, StopKey := [True], startOnce := True\<rparr>), 1) =
     Blocks ((NewWatch :: nat Watch)\<lparr>StopFn := Suc, StopKey := [True], startOnce := True\<rparr>, 2)"
  by (simp add: NewWatch_def Start_def Watch_StartUnsafe_def Stop_def Let_def StopKey_cap_def)

text \<open>
  Claim C4. Amended. If the watcher is not running, \<^verbatim>\<open>Stop\<close> is a no-op. If it is running,
  \<^verbatim>\<open>Stop\<close> sets \<^verbatim>\<open>Running\<close> to false and runs the teardown function once; then, when the
  one-place buffer of the stop channel has room, it sends one value on it and returns, and
  when the buffer is full (a stop value sent before has not been received) it stays
  blocked at the send, with nothing sent. Whenever \<^verbatim>\<open>Stop\<close> returns, the watcher is not
  running and a second \<^verbatim>\<open>Stop\<close> right after is a no-op: no teardown and no second send. On
  a \<^verbatim>\<open>Watch\<close> or \<^verbatim>\<open>TimerWatch\<close> that was made by its constructor and started by \<^verbatim>\<open>Start\<close>,
  the buffer is empty, so \<^verbatim>\<open>Stop\<close> returns having sent exactly once. The stop channel is
  open throughout: nothing in the package closes it.
\<close>

theorem Stop_idempotent:
  "(\<not> Running w \<longrightarrow> Stop (w, e) = Returns (w, e)) \<and>
   (Running w \<and> length (StopKey w) < StopKey_cap \<longrightarrow>
      Stop (w, e) = Returns (w\<lparr>Running := False, StopKey := StopKey w @ [True]\<rparr>, StopFn w e)) \<and>
   (Running w \<and> StopKey_cap \<le> length (StopKey w) \<longrightarrow>
      Stop (w, e) = Blocks (w\<lparr>Running := False\<rparr>, StopFn w e)) \<and>
   (Stop (w, e) = Returns (w', e') \<longrightarrow> \<not> Running w' \<and> Stop (w', e') = Returns (w', e')) \<and>
   (created w \<longrightarrow>
      Stop (Start Watch_StartUnsafe w, e) =
        Returns ((Start Watch_StartUnsafe w)\<lparr>Running := False, StopKey := [True]\<rparr>, StopFn w e)) \<and>
   (created tw \<longrightarrow>
      Stop (Start TimerWatch_StartUnsafe tw, e) =
        Returns ((Start TimerWatch_StartUnsafe tw)\<lparr>Running := False, StopKey := [True]\<rparr>,
          StopFn tw e))"
  using Stop_Returns_stopped [of w e w' e']
  by (simp add: Stop_not_Running Stop_Running_room Stop_Running_full Stop_after_Start
      Stop_after_Start_TimerWatch)

theorem Stop_idempotent_witness:
  "\<not> Running (NewWatch :: nat Watch) \<and>
   Stop (NewWatch :: nat Watch, 0) = Returns (NewWatch, 0) \<and>
   Running ((NewWatch :: nat Watch)\<lparr>Running := True, StopFn := Suc\<rparr>) \<and>
   length (StopKey ((NewWatch :: nat Watch)\<lparr>Running := True, StopFn := Suc\<rparr>)) < StopKey_cap \<and>
   Stop ((NewWatch :: nat Watch)\<lparr>Running := True, StopFn := Suc\<rparr>, 0) =
     Returns ((NewWatch :: nat Watch)\<lparr>StopFn := Suc, StopKey := [True]\<rparr>, 1) \<and>
   Stop ((NewWatch :: nat Watch)\<lparr>StopFn := Suc, StopKey := [True]\<rparr>, 1) =
     Returns ((NewWatch :: nat Watch)\<lparr>StopFn := Suc, StopKey := [True]\<rparr>, 1) \<and>
   Running ((NewWatch :: nat Watch)\<lparr>Running := True, StopFn := Suc, StopKey := [True]\<rparr>) \<and>
   StopKey_cap \<le> length (StopKey ((NewWatch :: nat Watch)
     \<lparr>Running := True, StopFn := Suc, StopKey := [True]\<rparr>)) \<and>
   Stop ((NewWatch :: nat Watch)\<lparr>Running := True, StopFn := Suc, StopKey := [True]\<rparr>, 1) =
     Blocks ((NewWatch :: nat Watch)\<lparr>StopFn := Suc, StopKey := [True]\<rparr>, 2) \<and>
   created (NewWatch :: nat Watch) \<and>
   Stop (Start Watch_StartUnsafe (NewWatch :: nat Watch), 5) =
     Returns ((NewWatch :: nat Watch)\<lparr>StopKey := [True], startOnce := True\<rparr>, 5)"
proof -
  let ?a = "NewWatch :: nat Watch"
  let ?b = "?a\<lparr>Running := True, StopFn := Suc\<rparr>"
  let ?c = "?a\<lparr>StopFn := Suc, StopKey := [True]\<rparr>"
  let ?d = "?a\<lparr>Running := True, StopFn := Suc, StopKey := [True]\<rparr>"
  have p1: "\<not> Running ?a" and p2: "Running ?b" and p3: "length (StopKey ?b) < StopKey_cap"
    and p4: "Running ?d" and p5: "StopKey_cap \<le> length (StopKey ?d)"
    by (simp_all add: NewWatch_def StopKey_cap_def)
  have p6: "created ?a"
    by (rule created_NewWatch)
  have r1: "Stop (?a, 0) = Returns (?a, 0)"
    using p1 Stop_idempotent [of ?a 0 ?a 0] by blast
  have r2: "Stop (?b, 0) = Returns (?b\<lparr>Running := False, StopKey := StopKey ?b @ [True]\<rparr>, StopFn ?b 0)"
    using p2 p3 Stop_idempotent [of ?b 0 ?a 0] by blast
  have e2: "?b\<lparr>Running := False, StopKey := StopKey ?b @ [True]\<rparr> = ?c" "StopFn ?b 0 = 1"
    by (simp_all add: NewWatch_def)
  have r3: "Stop (?c, 1) = Returns (?c, 1)"
    using r2 Stop_idempotent [of ?b 0 ?c 1] unfolding e2 by blast
  have r4: "Stop (?d, 1) = Blocks (?d\<lparr>Running := False\<rparr>, StopFn ?d 1)"
    using p4 p5 Stop_idempotent [of ?d 1 ?a 0] by blast
  have e4: "?d\<lparr>Running := False\<rparr> = ?c" "StopFn ?d 1 = 2"
    by (simp_all add: NewWatch_def)
  have r5: "Stop (Start Watch_StartUnsafe ?a, 5) =
      Returns ((Start Watch_StartUnsafe ?a)\<lparr>Running := False, StopKey := [True]\<rparr>, StopFn ?a 5)"
    using p6 Stop_idempotent [of ?a 5 ?a 0] by blast
  have e5: "(Start Watch_StartUnsafe ?a)\<lparr>Running := False, StopKey := [True]\<rparr> =
      ?a\<lparr>StopKey := [True], startOnce := True\<rparr>" "StopFn ?a 5 = 5"
    by (simp_all add: NewWatch_def Start_def Watch_StartUnsafe_def)
  show ?thesis
    using p1 p2 p3 p4 p5 p6 r1 r2 r3 r4 r5 unfolding e2 e4 e5 by blast
qed

text \<open>
  The channels after a send on each channel of a list, and what it takes for all those
  sends to complete.
\<close>

lemma Emit_loop_prefix:
  "(\<forall>x \<in> set pre. \<not> closed (cs x) \<and> count_list pre x \<le> room (cs x)) \<Longrightarrow>
     Emit_loop cs (pre @ rest) m sent =
       Emit_loop (\<lambda>x. (cs x)\<lparr>room := room (cs x) - count_list pre x\<rparr>) rest m
         (sent @ map (\<lambda>h. (h, m)) pre)"
proof (induction pre arbitrary: cs sent)
  case Nil
  then show ?case by simp
next
  case (Cons a pre)
  let ?cs = "cs(a := (cs a)\<lparr>room := room (cs a) - 1\<rparr>)"
  from Cons.prems have a: "\<not> closed (cs a)" "room (cs a) \<noteq> 0"
    by auto
  have ok: "\<forall>x \<in> set pre. \<not> closed (?cs x) \<and> count_list pre x \<le> room (?cs x)"
    using Cons.prems by auto
  have eq: "(\<lambda>x. (?cs x)\<lparr>room := room (?cs x) - count_list pre x\<rparr>) =
        (\<lambda>x. (cs x)\<lparr>room := room (cs x) - count_list (a # pre) x\<rparr>)"
    by (rule ext) simp
  have e2: "(sent @ [(a, m)]) @ map (\<lambda>h. (h, m)) pre = sent @ map (\<lambda>h. (h, m)) (a # pre)"
    by simp
  have "Emit_loop cs ((a # pre) @ rest) m sent = Emit_loop ?cs (pre @ rest) m (sent @ [(a, m)])"
    using a by simp
  also have "\<dots> = Emit_loop (\<lambda>x. (?cs x)\<lparr>room := room (?cs x) - count_list pre x\<rparr>) rest m
      ((sent @ [(a, m)]) @ map (\<lambda>h. (h, m)) pre)"
    by (rule Cons.IH [OF ok])
  finally show ?case
    unfolding eq e2 .
qed

lemma listeners_Subscribe: "listeners (foldl Subscribe w hs) = listeners w @ hs"
  by (induction hs arbitrary: w) (simp_all add: Subscribe_def)

text \<open>
  Claim C5. As stated the claim fails: when a subscribed channel is closed, \<^verbatim>\<open>Emit\<close> panics
  at it, and that target and the targets after it do not get the sample. Here channel 9
  is closed: the sample reaches channel 4 and neither 9 nor 2.
\<close>

theorem Emit_closed_channel_counterexample:
  "listeners (foldl Subscribe (NewWatch :: unit Watch) [4, 9, 2]) = [4, 9, 2] \<and>
   Emit (\<lambda>h. \<lparr>closed = (h = 9), room = 1\<rparr>) (foldl Subscribe (NewWatch :: unit Watch) [4, 9, 2])
     (0 :: int) [] = Panics [(4, 0)]"
  by (simp add: Emit_def Subscribe_def NewWatch_def)

text \<open>
  Claim C5. Amended. For every watcher with targets subscribed in some order, \<^verbatim>\<open>Emit\<close>
  sends the sample to the targets in exactly their subscription order, each send waiting
  for its target. When no subscribed channel is closed and every one takes as many values
  as it is subscribed times, \<^verbatim>\<open>Emit\<close> returns, having delivered the sample to every
  subscribed target, once for each subscription, in subscription order. Otherwise
  \<^verbatim>\<open>Emit\<close> stops at the first target whose send does not complete, having delivered to
  the targets before it and to none after it: it panics when that channel is closed and
  stays blocked when that channel takes no further value. \<^verbatim>\<open>Emit\<close> has no error result.
\<close>

theorem Emit_in_subscription_order:
  "((\<forall>h \<in> set (listeners w @ hs).
        \<not> closed (cs h) \<and> count_list (listeners w @ hs) h \<le> room (cs h)) \<longrightarrow>
      Emit cs (foldl Subscribe w hs) m sent =
        Returns (sent @ map (\<lambda>h. (h, m)) (listeners w @ hs))) \<and>
   (listeners w @ hs = pre @ h # post \<and>
    (\<forall>x \<in> set pre. \<not> closed (cs x) \<and> count_list pre x \<le> room (cs x)) \<longrightarrow>
      (closed (cs h) \<longrightarrow>
         Emit cs (foldl Subscribe w hs) m sent = Panics (sent @ map (\<lambda>h. (h, m)) pre)) \<and>
      (\<not> closed (cs h) \<and> room (cs h) \<le> count_list pre h \<longrightarrow>
         Emit cs (foldl Subscribe w hs) m sent = Blocks (sent @ map (\<lambda>h. (h, m)) pre)))"
proof -
  have all: "Emit cs (foldl Subscribe w hs) m sent =
      Returns (sent @ map (\<lambda>h. (h, m)) (listeners w @ hs))"
    if "\<forall>h \<in> set (listeners w @ hs).
        \<not> closed (cs h) \<and> count_list (listeners w @ hs) h \<le> room (cs h)"
    using Emit_loop_prefix [OF that, of "[]" m sent]
    by (simp add: Emit_def listeners_Subscribe)
  have part: "Emit cs (foldl Subscribe w hs) m sent =
      Emit_loop (\<lambda>x. (cs x)\<lparr>room := room (cs x) - count_list pre x\<rparr>) (h # post) m
        (sent @ map (\<lambda>h. (h, m)) pre)"
    if "listeners w @ hs = pre @ h # post"
      and "\<forall>x \<in> set pre. \<not> closed (cs x) \<and> count_list pre x \<le> room (cs x)"
    using Emit_loop_prefix [OF that(2), of "h # post" m sent] that(1)
    by (simp add: Emit_def listeners_Subscribe)
  show ?thesis
    using all part by auto
qed

theorem Emit_in_subscription_order_witness:
  "count_list [4 :: nat, 9, 4] 4 \<le> 2 \<and> count_list [4 :: nat, 9, 4] 9 \<le> 2 \<and>
   [4 :: nat, 9, 2] = [4] @ 9 # [2] \<and>
   [4 :: nat, 4, 2] = [4] @ 4 # [2] \<and> 1 \<le> count_list [4 :: nat] 4 \<and>
   Emit (\<lambda>h. \<lparr>closed = False, room = 2\<rparr>) (foldl Subscribe (NewWatch :: unit Watch) [4, 9, 4])
      (0 :: int) [] = Returns [(4, 0), (9, 0), (4, 0)] \<and>
   Emit (\<lambda>h. \<lparr>closed = (h = 9), room = 1\<rparr>) (foldl Subscribe (NewWatch :: unit Watch) [4, 9, 2])
      (0 :: int) [] = Panics [(4, 0)] \<and>
   Emit (\<lambda>h. \<lparr>closed = False, room = 1\<rparr>) (foldl Subscribe (NewWatch :: unit Watch) [4, 4, 2])
      (0 :: int) [] = Blocks [(4, 0)]"
proof -
  let ?w = "NewWatch :: unit Watch"
  have l: "listeners ?w = []"
    by (simp add: NewWatch_def)
  have a: "\<forall>h \<in> set (listeners ?w @ [4, 9, 4]).
      \<not> closed (\<lparr>closed = False, room = 2\<rparr>) \<and>
      count_list (listeners ?w @ [4, 9, 4]) h \<le> room (\<lparr>closed = False, room = 2\<rparr>)"
    by (simp add: l)
  have r1: "Emit (\<lambda>h. \<lparr>closed = False, room = 2\<rparr>) (foldl Subscribe ?w [4, 9, 4]) (0 :: int) [] =
      Returns ([] @ map (\<lambda>h. (h, 0)) (listeners ?w @ [4, 9, 4]))"
    using a Emit_in_subscription_order
      [of ?w "[4, 9, 4]" "\<lambda>h. \<lparr>closed = False, room = 2\<rparr>" 0 "[]" "[]" 0 "[]"]
    by blast
  have b: "listeners ?w @ [4, 9, 2] = [4] @ 9 # [2]"
    "\<forall>x \<in> set [4 :: nat]. \<not> closed (\<lparr>closed = (x = 9), room = 1\<rparr>) \<and>
       count_list [4] x \<le> room (\<lparr>closed = (x = 9), room = 1\<rparr>)"
    "closed (\<lparr>closed = ((9 :: nat) = 9), room = 1\<rparr>)"
    by (simp_all add: l)
  have r2: "Emit (\<lambda>h. \<lparr>closed = (h = 9), room = 1\<rparr>) (foldl Subscribe ?w [4, 9, 2]) (0 :: int) [] =
      Panics ([] @ map (\<lambda>h. (h, 0)) [4])"
    using b Emit_in_subscription_order
      [of ?w "[4, 9, 2]" "\<lambda>h. \<lparr>closed = (h = 9), room = 1\<rparr>" 0 "[]" "[4]" 9 "[2]"]
    by blast
  have c: "listeners ?w @ [4, 4, 2] = [4] @ 4 # [2]"
    "\<forall>x \<in> set [4 :: nat]. \<not> closed (\<lparr>closed = False, room = 1\<rparr>) \<and>
       count_list [4] x \<le> room (\<lparr>closed = False, room = 1\<rparr>)"
    "\<not> closed (\<lparr>closed = False, room = 1\<rparr>) \<and>
       room (\<lparr>closed = False, room = 1\<rparr>) \<le> count_list [4 :: nat] 4"
    by (simp_all add: l)
  have r3: "Emit (\<lambda>h. \<lparr>closed = False, room = 1\<rparr>) (foldl Subscribe ?w [4, 4, 2]) (0 :: int) [] =
      Blocks ([] @ map (\<lambda>h. (h, 0)) [4])"
    using c Emit_in_subscription_order
      [of ?w "[4, 4, 2]" "\<lambda>h. \<lparr>closed = False, room = 1\<rparr>" 0 "[]" "[4]" 4 "[2]"]
    by blast
  show ?thesis
    using r1 r2 r3 by (simp add: l)
qed






text \<open>
  Claim C7. The interval of the watcher \<^verbatim>\<open>NewTimerWatch\<close> makes is one second when the
  configured interval is zero (unset) or negative, and the configured interval when that is
  positive.
\<close>

theorem NewTimerWatch_Interval:
  "(sint (Interval conf) \<le> 0 \<longrightarrow> Interval (TimerWatchConf (NewTimerWatch conf)) = Second) \<and>
   (0 < sint (Interval conf) \<longrightarrow> Interval (TimerWatchConf (NewTimerWatch conf)) = Interval conf)"
  by (simp add: NewTimerWatch_def Let_def Watch.extend_def TimerWatch.fields_def
      word_sless_alt)

theorem NewTimerWatch_Interval_witness:
  "sint (Interval \<lparr>Interval = 0\<rparr>) \<le> 0 \<and>
   Interval (TimerWatchConf (NewTimerWatch \<lparr>Interval = 0\<rparr> :: unit TimerWatch)) = 1000000000 \<and>
   sint (Interval \<lparr>Interval = - 7\<rparr>) \<le> 0 \<and>
   Interval (TimerWatchConf (NewTimerWatch \<lparr>Interval = - 7\<rparr> :: unit TimerWatch)) = 1000000000 \<and>
   0 < sint (Interval \<lparr>Interval = 250\<rparr>) \<and>
   Interval (TimerWatchConf (NewTimerWatch \<lparr>Interval = 250\<rparr> :: unit TimerWatch)) = 250"
  using NewTimerWatch_Interval [of "\<lparr>Interval = 0\<rparr>", where ?'a = unit]
    NewTimerWatch_Interval [of "\<lparr>Interval = - 7\<rparr>", where ?'a = unit]
    NewTimerWatch_Interval [of "\<lparr>Interval = 250\<rparr>", where ?'a = unit]
  by (simp add: Second_def)

section \<open>Properties of the stream registry\<close>

lemma run_Nil: "channel_run ch [] = ch"
  by (simp add: channel_run_def)

lemma run_Cons: "channel_run ch (ev # evs) = channel_run (channel_step ch ev) evs"
  by (simp add: channel_run_def)

lemma run_snoc: "channel_run ch (evs @ [ev]) = channel_step (channel_run ch evs) ev"
  by (simp add: channel_run_def)

lemma pushed_Cons: "pushed (ev # evs) = pushed [ev] @ pushed evs"
  by (cases ev) simp_all

lemma step_receipts:
  "map snd (received (channel_step ch ev)) @ queue (channel_step ch ev) =
     map snd (received ch) @ queue ch @ pushed [ev]"
  by (cases ev; cases "queue ch") simp_all

lemma step_readers: "readers (channel_step ch ev) = readers ch"
  by (cases ev; cases "queue ch") simp_all

lemma step_receivers:
  "fst ` set (received (channel_step ch ev)) \<subseteq> fst ` set (received ch) \<union> set (readers ch)"
  by (cases ev; cases "queue ch") auto

lemma receipts_run:
  "map snd (received (channel_run ch evs)) @ queue (channel_run ch evs) =
     map snd (received ch) @ queue ch @ pushed evs"
proof (induction evs arbitrary: ch)
  case Nil
  show ?case by (simp add: run_Nil)
next
  case (Cons ev evs)
  have "map snd (received (channel_run ch (ev # evs))) @ queue (channel_run ch (ev # evs)) =
          (map snd (received (channel_step ch ev)) @ queue (channel_step ch ev)) @ pushed evs"
    unfolding run_Cons using Cons.IH [of "channel_step ch ev"] by simp
  also have "\<dots> = (map snd (received ch) @ queue ch @ pushed [ev]) @ pushed evs"
    by (simp only: step_receipts)
  also have "\<dots> = map snd (received ch) @ queue ch @ pushed (ev # evs)"
    using pushed_Cons [of ev evs] by simp
  finally show ?case .
qed

lemma readers_run: "readers (channel_run ch evs) = readers ch"
proof (induction evs arbitrary: ch)
  case Nil
  show ?case by (simp add: run_Nil)
next
  case (Cons ev evs)
  show ?case
    unfolding run_Cons using Cons.IH [of "channel_step ch ev"] by (simp add: step_readers)
qed

lemma receivers_run:
  "fst ` set (received (channel_run ch evs)) \<subseteq> fst ` set (received ch) \<union> set (readers ch)"
proof (induction evs arbitrary: ch)
  case Nil
  show ?case by (simp add: run_Nil)
next
  case (Cons ev evs)
  have "fst ` set (received (channel_run (channel_step ch ev) evs))
          \<subseteq> fst ` set (received (channel_step ch ev)) \<union> set (readers ch)"
    using Cons.IH [of "channel_step ch ev"] by (simp add: step_readers)
  with step_receivers [of ch ev] show ?case
    unfolding run_Cons by blast
qed

lemma Registerer_Start_fields:
  "readers (fst (Registerer_Start r ch)) = readers ch @ streams r \<and>
   queue (fst (Registerer_Start r ch)) = queue ch \<and>
   received (fst (Registerer_Start r ch)) = received ch"
proof -
  have "readers (foldl (\<lambda>c s. Stream_Start s c) ch ss) = readers ch @ ss \<and>
        queue (foldl (\<lambda>c s. Stream_Start s c) ch ss) = queue ch \<and>
        received (foldl (\<lambda>c s. Stream_Start s c) ch ss) = received ch" for ss
    by (induction ss arbitrary: ch) (simp_all add: Stream_Start_def)
  then show ?thesis by (simp add: Registerer_Start_def)
qed

lemma length_filter_disjoint:
  "(\<And>x. \<not> (P x \<and> Q x)) \<Longrightarrow> length (filter P xs) + length (filter Q xs) \<le> length xs"
  by (induction xs) auto

text \<open>
  Claim C1. As stated the claim fails: with sinks 0, 1 and 2 registered in that order
  and started on one channel, and three samples pushed, each received as soon as it is
  pushed, the second sink observes the second sample only.
\<close>

theorem every_sink_sees_every_sample_counterexample:
  "streams (fst (Register newRegisterer [0, 1, 2])) = [0, 1, 2] \<and>
   pushed [Push (10::nat), Receive 0, Push 20, Receive 1, Push 30, Receive 2] = [10, 20, 30] \<and>
   queue (channel_run (fst (Registerer_Start (fst (Register newRegisterer [0, 1, 2])) new_channel))
      [Push (10::nat), Receive 0, Push 20, Receive 1, Push 30, Receive 2]) = [] \<and>
   observed 1 (channel_run (fst (Registerer_Start (fst (Register newRegisterer [0, 1, 2])) new_channel))
      [Push (10::nat), Receive 0, Push 20, Receive 1, Push 30, Receive 2]) = [20] \<and>
   observed 1 (channel_run (fst (Registerer_Start (fst (Register newRegisterer [0, 1, 2])) new_channel))
      [Push (10::nat), Receive 0, Push 20, Receive 1, Push 30, Receive 2]) \<noteq> [10, 20, 30]"
  by (simp add: Register_def newRegisterer_def Registerer_Start_def Stream_Start_def
      new_channel_def channel_run_def observed_def)

text \<open>
  Claim C1. Amended. \<^verbatim>\<open>Start\<close> returns no error and makes the registered sinks, in the
  order of their registration, the readers of the one channel; they stay its readers, and a
  registered sink that receives takes the oldest waiting sample. Every sample pushed onto
  the channel is received once, by one sink: the receipts, in order, followed by what
  still waits in the channel, are the pushed samples in order. So every sink observes a
  subsequence of the pushed samples, in the order they were pushed and without
  duplication; two different sinks together never observe more samples than were pushed;
  a stream that is not registered observes nothing; and when no sink but one is registered,
  that sink observes every sample received, in order.
\<close>

theorem shared_channel_receipts:
  fixes evs :: "'m event list"
  shows
  "map snd (received (channel_run (fst (Registerer_Start r new_channel)) evs))
       @ queue (channel_run (fst (Registerer_Start r new_channel)) evs) = pushed evs \<and>
   subseq (observed s (channel_run (fst (Registerer_Start r new_channel)) evs)) (pushed evs) \<and>
   (s \<noteq> s' \<longrightarrow>
      length (observed s (channel_run (fst (Registerer_Start r new_channel)) evs))
        + length (observed s' (channel_run (fst (Registerer_Start r new_channel)) evs))
      \<le> length (pushed evs)) \<and>
   (s \<notin> set (streams r) \<longrightarrow>
      observed s (channel_run (fst (Registerer_Start r new_channel)) evs) = []) \<and>
   (set (streams r) = {s} \<longrightarrow>
      observed s (channel_run (fst (Registerer_Start r new_channel)) evs)
        @ queue (channel_run (fst (Registerer_Start r new_channel)) evs) = pushed evs) \<and>
   snd (Registerer_Start r (new_channel :: 'm channel)) = None \<and>
   readers (fst (Registerer_Start r ch)) = readers ch @ streams r \<and>
   queue (fst (Registerer_Start r ch)) = queue ch \<and>
   received (fst (Registerer_Start r ch)) = received ch \<and>
   readers (channel_run (fst (Registerer_Start r new_channel)) evs) = streams r \<and>
   (s \<in> set (streams r) \<and>
    queue (channel_run (fst (Registerer_Start r new_channel)) evs) = m # rest \<longrightarrow>
      queue (channel_run (fst (Registerer_Start r new_channel)) (evs @ [Receive s])) = rest \<and>
      observed s (channel_run (fst (Registerer_Start r new_channel)) (evs @ [Receive s])) =
        observed s (channel_run (fst (Registerer_Start r new_channel)) evs) @ [m])"
proof -
  let ?i = "fst (Registerer_Start r (new_channel :: 'm channel))"
  let ?f = "channel_run ?i evs"
  have start: "readers ?i = streams r" "queue ?i = []" "received ?i = []"
    using Registerer_Start_fields [of r "new_channel :: 'm channel"]
    by (simp_all add: new_channel_def)
  have all: "map snd (received ?f) @ queue ?f = pushed evs"
    using receipts_run [of ?i evs] by (simp add: start)
  have src: "fst ` set (received ?f) \<subseteq> set (streams r)"
    using receivers_run [of ?i evs] by (simp add: start)
  have "subseq (map snd (filter (\<lambda>x. fst x = s) (received ?f))) (map snd (received ?f))"
    by (rule subseq_map) simp
  moreover have "subseq (map snd (received ?f)) (pushed evs)"
    using all by (metis list_emb_prefix subseq_order.order_refl)
  ultimately have sub: "subseq (observed s ?f) (pushed evs)"
    unfolding observed_def by (rule subseq_order.trans)
  have len: "length (observed s ?f) + length (observed s' ?f) \<le> length (pushed evs)" if "s \<noteq> s'"
  proof -
    have "length (filter (\<lambda>x. fst x = s) (received ?f))
            + length (filter (\<lambda>x. fst x = s') (received ?f)) \<le> length (received ?f)"
      by (rule length_filter_disjoint) (use that in auto)
    moreover have "length (received ?f) \<le> length (pushed evs)"
      using arg_cong [OF all, of length] by simp
    ultimately show ?thesis by (simp add: observed_def)
  qed
  have none: "observed s ?f = []" if "s \<notin> set (streams r)"
    using src that by (auto simp: observed_def filter_empty_conv)
  have one: "observed s ?f @ queue ?f = pushed evs" if "set (streams r) = {s}"
  proof -
    have "filter (\<lambda>x. fst x = s) (received ?f) = received ?f"
      using src that by (auto simp: filter_id_conv)
    then show ?thesis using all by (simp add: observed_def)
  qed
  have ret: "snd (Registerer_Start r (new_channel :: 'm channel)) = None"
    by (simp add: Registerer_Start_def)
  have rd: "readers ?f = streams r"
    by (simp add: readers_run start)
  have take: "queue (channel_run ?i (evs @ [Receive s])) = rest \<and>
      observed s (channel_run ?i (evs @ [Receive s])) = observed s ?f @ [m]"
    if "s \<in> set (streams r)" and "queue ?f = m # rest"
    using that rd by (simp add: run_snoc observed_def)
  show ?thesis
    using all sub len none one ret rd take Registerer_Start_fields [of r ch] by blast
qed

theorem shared_channel_receipts_witness:
  "(0::nat) \<noteq> 1 \<and> (5::nat) \<notin> set (streams (fst (Register newRegisterer [0, 1, 2]))) \<and>
   set (streams (fst (Register newRegisterer [4]))) = {4} \<and>
   observed 4 (channel_run (fst (Registerer_Start (fst (Register newRegisterer [4])) new_channel))
      [Push (10::nat), Push 20, Receive 4, Receive 4, Push 30, Receive 4]) = [10, 20, 30] \<and>
   observed 5 (channel_run (fst (Registerer_Start (fst (Register newRegisterer [0, 1, 2])) new_channel))
      [Push (10::nat), Receive 0, Push 20, Receive 1, Push 30, Receive 2]) = [] \<and>
   length (observed 0 (channel_run (fst (Registerer_Start (fst (Register newRegisterer [0, 1, 2])) new_channel))
      [Push (10::nat), Receive 0, Push 20, Receive 1, Push 30, Receive 2]))
    + length (observed 1 (channel_run (fst (Registerer_Start (fst (Register newRegisterer [0, 1, 2])) new_channel))
      [Push (10::nat), Receive 0, Push 20, Receive 1, Push 30, Receive 2])) \<le> 3 \<and>
   (1::nat) \<in> set (streams (fst (Register newRegisterer [0, 1, 2]))) \<and>
   queue (channel_run (fst (Registerer_Start (fst (Register newRegisterer [0, 1, 2])) new_channel))
      [Push (10::nat), Receive 0, Push 20, Push 30]) = [20, 30] \<and>
   queue (channel_run (fst (Registerer_Start (fst (Register newRegisterer [0, 1, 2])) new_channel))
      ([Push (10::nat), Receive 0, Push 20, Push 30] @ [Receive 1])) = [30] \<and>
   observed 1 (channel_run (fst (Registerer_Start (fst (Register newRegisterer [0, 1, 2])) new_channel))
      ([Push (10::nat), Receive 0, Push 20, Push 30] @ [Receive 1])) = [20] \<and>
   readers (fst (Registerer_Start (fst (Register newRegisterer [0, 1, 2]))
      (new_channel :: nat channel))) = [0, 1, 2]"
  using shared_channel_receipts [of "fst (Register newRegisterer [4])"
      "[Push (10::nat), Push 20, Receive 4, Receive 4, Push 30, Receive 4]" 4 4 new_channel 0 "[]"]
    shared_channel_receipts [of "fst (Register newRegisterer [0, 1, 2])"
      "[Push (10::nat), Receive 0, Push 20, Receive 1, Push 30, Receive 2]" 5 5 new_channel 0 "[]"]
    shared_channel_receipts [of "fst (Register newRegisterer [0, 1, 2])"
      "[Push (10::nat), Receive 0, Push 20, Receive 1, Push 30, Receive 2]" 0 1 new_channel 0 "[]"]
    shared_channel_receipts [of "fst (Register newRegisterer [0, 1, 2])"
      "[Push (10::nat), Receive 0, Push 20, Push 30]" 1 1 new_channel 20 "[30]"]
  by (simp add: Register_def newRegisterer_def Registerer_Start_def Stream_Start_def
      new_channel_def channel_run_def observed_def)

section \<open>Properties of the Algorand adapter\<close>

text \<open>
  Claim C8. The code does not do what the claim says: on the adapter \<^verbatim>\<open>NewAlgorand\<close>
  returns, \<^verbatim>\<open>ResetConfig\<close> and \<^verbatim>\<open>IsConfigured\<close> both panic with the message
  \<^verbatim>\<open>implement me!\<close> and return nothing.
\<close>

theorem Algorand_unimplemented:
  "ResetConfig (fst NewAlgorand) = Panic ''implement me!'' \<and>
   IsConfigured (fst NewAlgorand) = Panic ''implement me!''"
  by (simp add: ResetConfig_def IsConfigured_def)

end
